theory Spec2Isabelle
  imports
    Main
    "HOL-Library.Char_ord"
    "HOL-Library.List_Lexorder"
    "HOL-Library.Multiset"
    "HOL-Library.AList"
begin

section \<open>Conventions of the embedding\<close>

text \<open>
  The modules under \<^verbatim>\<open>src/utils\<close> keep each collection under one key of
  \<^verbatim>\<open>localStorage\<close> and follow the pattern load, change in memory, save.
  A store is modelled as an optional collection: \<open>None\<close> is the key that was never
  written (\<^verbatim>\<open>getItem\<close> returns \<^verbatim>\<open>null\<close>, the loader returns the empty
  collection), \<open>Some xs\<close> is the collection last saved. The embedding assumes that
  the stored text is the serialisation of a well-typed collection and that
  \<^verbatim>\<open>setItem\<close> succeeds, so the \<^verbatim>\<open>catch\<close> branches of the loaders and
  savers are not taken.

  The clock (\<^verbatim>\<open>Date.now()\<close>) and the random source
  (\<^verbatim>\<open>Math.random().toString(36).substr(2, 9)\<close>) are read from the environment:
  every function that reads them takes the values read as arguments, one argument
  per read; where the number of reads depends on the data, the argument is a function
  from the number of the read to the value read. Timestamps are integers (milliseconds), strings are lists of characters
  compared lexicographically, as JavaScript compares strings code unit by code unit.
\<close>

subsection \<open>Numbers in template literals\<close>

fun show_nat :: "nat \<Rightarrow> string" where
  "show_nat n =
     (if n < 10 then [''0123456789'' ! n]
      else show_nat (n div 10) @ [''0123456789'' ! (n mod 10)])"

declare show_nat.simps [simp del]

definition show_int :: "int \<Rightarrow> string" where
  "show_int i = (if i < 0 then ''-'' @ show_nat (nat (- i)) else show_nat (nat i))"

section \<open>Invite ledger (\<^verbatim>\<open>invites.js\<close>)\<close>

datatype invite_status = Active | Used | Expired

record invite =
  i_id :: string
  i_token :: string
  i_fromUserId :: string
  i_fromUserName :: string
  i_createdAt :: int
  i_status :: invite_status
  i_usedByUserId :: "string option"
  i_usedAt :: "int option"

type_synonym invite_store = "invite list option"

definition generateInviteId :: "int \<Rightarrow> string \<Rightarrow> string" where
  "generateInviteId now rnd = ''inv_'' @ show_int now @ ''_'' @ rnd"

definition loadInvites :: "invite_store \<Rightarrow> invite list" where
  "loadInvites st = (case st of None \<Rightarrow> [] | Some invites \<Rightarrow> invites)"

definition saveInvites :: "invite list \<Rightarrow> invite_store \<Rightarrow> invite_store" where
  "saveInvites invites st = Some invites"

text \<open>
  \<^verbatim>\<open>createInvite\<close>: the token is the concatenation of two random strings, taken
  here as one argument; the clock is read for the id and again for \<^verbatim>\<open>createdAt\<close>.
\<close>

definition createInvite ::
  "string \<Rightarrow> string \<Rightarrow> int \<Rightarrow> string \<Rightarrow> string \<Rightarrow> int \<Rightarrow> invite_store
     \<Rightarrow> invite \<times> invite_store" where
  "createInvite fromUserId fromUserName idNow rnd newToken now st =
     (let invite = \<lparr> i_id = generateInviteId idNow rnd, i_token = newToken,
                      i_fromUserId = fromUserId, i_fromUserName = fromUserName,
                      i_createdAt = now, i_status = Active,
                      i_usedByUserId = None, i_usedAt = None \<rparr>
      in (invite, saveInvites (loadInvites st @ [invite]) st))"

definition findInviteByToken :: "string \<Rightarrow> invite_store \<Rightarrow> invite option" where
  "findInviteByToken token st = find (\<lambda>inv. i_token inv = token) (loadInvites st)"

text \<open>
  \<^verbatim>\<open>markInviteAsUsed\<close>: the callback of \<^verbatim>\<open>map\<close> evaluates \<^verbatim>\<open>Date.now()\<close>
  itself, so the clock is read once for every invite that carries the token, and
  not at all when none does. \<open>clock k\<close> is the value of read number \<open>k\<close> of the
  call, counted from 0; \<open>markInvites\<close> is the \<^verbatim>\<open>map\<close>, with the number of reads
  made so far.
\<close>

fun markInvites :: "string \<Rightarrow> string \<Rightarrow> (nat \<Rightarrow> int) \<Rightarrow> nat \<Rightarrow> invite list \<Rightarrow> invite list" where
  "markInvites token usedByUserId clock k [] = []"
| "markInvites token usedByUserId clock k (iv # ivs) =
     (if i_token iv = token
      then iv\<lparr> i_status := Used, i_usedByUserId := Some usedByUserId,
                i_usedAt := Some (clock k) \<rparr>
             # markInvites token usedByUserId clock (Suc k) ivs
      else iv # markInvites token usedByUserId clock k ivs)"

definition markInviteAsUsed ::
  "string \<Rightarrow> string \<Rightarrow> (nat \<Rightarrow> int) \<Rightarrow> invite_store \<Rightarrow> invite_store" where
  "markInviteAsUsed token usedByUserId clock st =
     saveInvites (markInvites token usedByUserId clock 0 (loadInvites st)) st"

definition generateInviteLink :: "string \<Rightarrow> string" where
  "generateInviteLink token = ''https://breakloop.app/invite/'' @ token"

text \<open>
  The result of \<^verbatim>\<open>validateInvite\<close> is \<^verbatim>\<open>{valid: true, invite}\<close> or
  \<^verbatim>\<open>{valid: false, reason}\<close>. Its argument may be missing: \<open>None\<close> stands for
  \<^verbatim>\<open>undefined\<close> or \<^verbatim>\<open>null\<close>, and the empty string is falsy as well. The
  function is written in state-passing style like the others; it never saves.
\<close>

datatype validation = Valid invite | Invalid string

definition validateInvite :: "string option \<Rightarrow> invite_store \<Rightarrow> validation \<times> invite_store" where
  "validateInvite token st =
     (case token of
        None \<Rightarrow> (Invalid ''No invite token provided'', st)
      | Some t \<Rightarrow>
          if t = [] then (Invalid ''No invite token provided'', st)
          else (case findInviteByToken t st of
                  None \<Rightarrow> (Invalid ''Invite not found'', st)
                | Some invite \<Rightarrow>
                    if i_status invite = Used
                    then (Invalid ''This invite is no longer valid'', st)
                    else if i_status invite = Expired
                    then (Invalid ''This invite has expired'', st)
                    else (Valid invite, st)))"

definition getUserInvites :: "string \<Rightarrow> invite_store \<Rightarrow> invite list" where
  "getUserInvites userId st = filter (\<lambda>inv. i_fromUserId inv = userId) (loadInvites st)"

section \<open>Friend relationship store (\<^verbatim>\<open>friendRequests.js\<close>)\<close>

datatype request_status = Pending | Accepted | Declined

record friendRequest =
  fr_id :: string
  fr_fromUserId :: string
  fr_fromUserName :: string
  fr_toUserId :: string
  fr_toUserName :: string
  fr_status :: request_status
  fr_createdAt :: int

type_synonym request_store = "friendRequest list option"

definition generateFriendRequestId :: "int \<Rightarrow> string \<Rightarrow> string" where
  "generateFriendRequestId now rnd = ''freq_'' @ show_int now @ ''_'' @ rnd"

definition loadFriendRequests :: "request_store \<Rightarrow> friendRequest list" where
  "loadFriendRequests st = (case st of None \<Rightarrow> [] | Some requests \<Rightarrow> requests)"

definition saveFriendRequests :: "friendRequest list \<Rightarrow> request_store \<Rightarrow> request_store" where
  "saveFriendRequests requests st = Some requests"

definition createFriendRequest ::
  "string \<Rightarrow> string \<Rightarrow> string \<Rightarrow> string \<Rightarrow> int \<Rightarrow> string \<Rightarrow> int \<Rightarrow> request_store
     \<Rightarrow> friendRequest \<times> request_store" where
  "createFriendRequest fromUserId fromUserName toUserId toUserName idNow rnd now st =
     (let request = \<lparr> fr_id = generateFriendRequestId idNow rnd,
                       fr_fromUserId = fromUserId, fr_fromUserName = fromUserName,
                       fr_toUserId = toUserId, fr_toUserName = toUserName,
                       fr_status = Pending, fr_createdAt = now \<rparr>
      in (request, saveFriendRequests (loadFriendRequests st @ [request]) st))"

definition findExistingRequest :: "string \<Rightarrow> string \<Rightarrow> request_store \<Rightarrow> friendRequest option" where
  "findExistingRequest userId1 userId2 st =
     find (\<lambda>req. fr_status req = Pending \<and>
                  ((fr_fromUserId req = userId1 \<and> fr_toUserId req = userId2) \<or>
                   (fr_fromUserId req = userId2 \<and> fr_toUserId req = userId1)))
          (loadFriendRequests st)"

definition updateFriendRequestStatus :: "string \<Rightarrow> request_status \<Rightarrow> request_store \<Rightarrow> request_store" where
  "updateFriendRequestStatus requestId newStatus st =
     saveFriendRequests
       (map (\<lambda>req. if fr_id req = requestId then req\<lparr> fr_status := newStatus \<rparr> else req)
            (loadFriendRequests st))
       st"

definition getPendingRequestsForUser :: "string \<Rightarrow> request_store \<Rightarrow> friendRequest list" where
  "getPendingRequestsForUser userId st =
     filter (\<lambda>req. fr_toUserId req = userId \<and> fr_status req = Pending) (loadFriendRequests st)"

section \<open>Event update bus (\<^verbatim>\<open>eventUpdates.js\<close>)\<close>

text \<open>
  The \<^verbatim>\<open>type\<close> of an update is a string; \<^verbatim>\<open>UPDATE_TYPES\<close> names the ones
  the emit helpers use. The optional fields default to \<^verbatim>\<open>null\<close>, here \<open>None\<close>.
\<close>

record eventUpdate =
  u_id :: string
  u_type :: string
  u_eventId :: string
  u_actorId :: "string option"
  u_actorName :: "string option"
  u_message :: "string option"
  u_createdAt :: int
  u_resolved :: bool

type_synonym update_store = "eventUpdate list option"

datatype js_error = TypeError | RangeError

definition EVENT_CHAT :: string where "EVENT_CHAT = ''event_chat''"
definition JOIN_REQUEST :: string where "JOIN_REQUEST = ''join_request''"
definition JOIN_APPROVED :: string where "JOIN_APPROVED = ''join_approved''"
definition JOIN_DECLINED :: string where "JOIN_DECLINED = ''join_declined''"
definition EVENT_UPDATED :: string where "EVENT_UPDATED = ''event_updated''"
definition EVENT_CANCELLED :: string where "EVENT_CANCELLED = ''event_cancelled''"
definition PARTICIPANT_LEFT :: string where "PARTICIPANT_LEFT = ''participant_left''"

definition generateUpdateId :: "int \<Rightarrow> string \<Rightarrow> string" where
  "generateUpdateId now rnd = ''upd_'' @ show_int now @ ''_'' @ rnd"

definition createEventUpdate ::
  "string \<Rightarrow> string \<Rightarrow> string option \<Rightarrow> string option \<Rightarrow> string option
     \<Rightarrow> int \<Rightarrow> string \<Rightarrow> int \<Rightarrow> eventUpdate" where
  "createEventUpdate type eventId actorId actorName message idNow rnd now =
     \<lparr> u_id = generateUpdateId idNow rnd, u_type = type, u_eventId = eventId,
       u_actorId = actorId, u_actorName = actorName, u_message = message,
       u_createdAt = now, u_resolved = False \<rparr>"

definition loadEventUpdates :: "update_store \<Rightarrow> eventUpdate list" where
  "loadEventUpdates st = (case st of None \<Rightarrow> [] | Some updates \<Rightarrow> updates)"

definition saveEventUpdates :: "eventUpdate list \<Rightarrow> update_store \<Rightarrow> update_store" where
  "saveEventUpdates updates st = Some updates"

text \<open>
  \<^verbatim>\<open>addEventUpdate\<close> pushes, saves, and then writes a debug line that formats
  \<^verbatim>\<open>new Date(update.createdAt).toISOString()\<close>. That call throws a
  \<^verbatim>\<open>RangeError\<close> when the time value is outside the range of a JavaScript date
  (more than 8.64e15 ms from the epoch); the save has happened by then.
\<close>

definition validTimeValue :: "int \<Rightarrow> bool" where
  "validTimeValue t = (\<bar>t\<bar> \<le> 8640000000000000)"

definition addEventUpdate ::
  "eventUpdate \<Rightarrow> update_store \<Rightarrow> (js_error + eventUpdate list) \<times> update_store" where
  "addEventUpdate upd st =
     (let updates = loadEventUpdates st @ [upd];
          st' = saveEventUpdates updates st
      in (if validTimeValue (u_createdAt upd) then Inr updates else Inl RangeError, st'))"

definition emitEventChatUpdate ::
  "string \<Rightarrow> string \<Rightarrow> string \<Rightarrow> string \<Rightarrow> int \<Rightarrow> string \<Rightarrow> int \<Rightarrow> update_store
     \<Rightarrow> (js_error + eventUpdate list) \<times> update_store" where
  "emitEventChatUpdate eventId senderId senderName messageText idNow rnd now st =
     (let preview = (if length messageText > 50 then take 50 messageText @ ''...''
                     else messageText)
      in addEventUpdate
           (createEventUpdate EVENT_CHAT eventId (Some senderId) (Some senderName)
              (Some preview) idNow rnd now)
           st)"

definition emitJoinRequestUpdate ::
  "string \<Rightarrow> string \<Rightarrow> string \<Rightarrow> int \<Rightarrow> string \<Rightarrow> int \<Rightarrow> update_store
     \<Rightarrow> (js_error + eventUpdate list) \<times> update_store" where
  "emitJoinRequestUpdate eventId requesterId requesterName idNow rnd now st =
     addEventUpdate
       (createEventUpdate JOIN_REQUEST eventId (Some requesterId) (Some requesterName)
          None idNow rnd now)
       st"

section \<open>Inbox projector (the inbox utilities)\<close>

text \<open>
  \<^verbatim>\<open>Array.prototype.sort\<close> with a comparison function is stable: elements that
  compare equal keep their relative order, and an element \<open>a\<close> is placed before
  \<open>b\<close> when \<open>cmp a b\<close> is negative. For a comparison function that is a
  consistent ordering every stable sort gives the same result; \<open>sortBy\<close> computes
  it by stable insertion.
\<close>

fun insertBy :: "('a \<Rightarrow> 'a \<Rightarrow> int) \<Rightarrow> 'a \<Rightarrow> 'a list \<Rightarrow> 'a list" where
  "insertBy cmp x [] = [x]"
| "insertBy cmp x (y # ys) = (if cmp x y \<le> 0 then x # y # ys else y # insertBy cmp x ys)"

definition sortBy :: "('a \<Rightarrow> 'a \<Rightarrow> int) \<Rightarrow> 'a list \<Rightarrow> 'a list" where
  "sortBy cmp xs = foldr (insertBy cmp) xs []"

definition getUnresolvedUpdates :: "update_store \<Rightarrow> eventUpdate list" where
  "getUnresolvedUpdates st =
     sortBy (\<lambda>a b. u_createdAt b - u_createdAt a)
       (filter (\<lambda>upd. \<not> u_resolved upd) (loadEventUpdates st))"

definition getUnresolvedCount :: "update_store \<Rightarrow> nat" where
  "getUnresolvedCount st = length (getUnresolvedUpdates st)"

definition resolveUpdate :: "string \<Rightarrow> update_store \<Rightarrow> update_store" where
  "resolveUpdate updateId st =
     saveEventUpdates
       (map (\<lambda>upd. if u_id upd = updateId then upd\<lparr> u_resolved := True \<rparr> else upd)
            (loadEventUpdates st))
       st"

definition resolveUpdatesByEvent :: "string \<Rightarrow> update_store \<Rightarrow> update_store" where
  "resolveUpdatesByEvent eventId st =
     saveEventUpdates
       (map (\<lambda>upd. if u_eventId upd = eventId then upd\<lparr> u_resolved := True \<rparr> else upd)
            (loadEventUpdates st))
       st"

definition resolveUpdatesByEventAndType :: "string \<Rightarrow> string \<Rightarrow> update_store \<Rightarrow> update_store" where
  "resolveUpdatesByEventAndType eventId type st =
     saveEventUpdates
       (map (\<lambda>upd. if u_eventId upd = eventId \<and> u_type upd = type
                    then upd\<lparr> u_resolved := True \<rparr> else upd)
            (loadEventUpdates st))
       st"

text \<open>
  \<^verbatim>\<open>formatRelativeTime\<close> reads the clock once. \<^verbatim>\<open>Math.floor\<close> of the quotient is
  floor division, which is \<open>div\<close> on integers. The last branch formats a calendar date
  in the local time zone; the formatter is an argument.
\<close>

definition formatRelativeTime :: "int \<Rightarrow> int \<Rightarrow> (int \<Rightarrow> string) \<Rightarrow> string" where
  "formatRelativeTime timestamp now toLocaleDateString =
     (let diffMs = now - timestamp;
          diffMins = diffMs div 60000;
          diffHours = diffMs div 3600000;
          diffDays = diffMs div 86400000
      in if diffMins < 1 then ''Just now''
         else if diffMins < 60 then show_int diffMins @ ''m ago''
         else if diffHours < 24 then show_int diffHours @ ''h ago''
         else if diffDays < 7 then show_int diffDays @ ''d ago''
         else toLocaleDateString timestamp)"

text \<open>
  The operations that write the event-update collection, as one type, so that a
  property of every operation, and of every sequence of them, can be stated.
\<close>

datatype update_op =
    AddEventUpdate eventUpdate
  | ResolveUpdate string
  | ResolveUpdatesByEvent string
  | ResolveUpdatesByEventAndType string string

fun apply_update_op :: "update_op \<Rightarrow> update_store \<Rightarrow> update_store" where
  "apply_update_op (AddEventUpdate upd) st = snd (addEventUpdate upd st)"
| "apply_update_op (ResolveUpdate updateId) st = resolveUpdate updateId st"
| "apply_update_op (ResolveUpdatesByEvent eventId) st = resolveUpdatesByEvent eventId st"
| "apply_update_op (ResolveUpdatesByEventAndType eventId type) st =
     resolveUpdatesByEventAndType eventId type st"

fun apply_update_ops :: "update_op list \<Rightarrow> update_store \<Rightarrow> update_store" where
  "apply_update_ops [] st = st"
| "apply_update_ops (oper # ops) st = apply_update_ops ops (apply_update_op oper st)"

section \<open>Private conversation store (the private-messages utilities)\<close>

record privateMessage =
  m_id :: string
  m_conversationId :: string
  m_senderId :: string
  m_senderName :: string
  m_text :: string
  m_createdAt :: int

record conversation =
  c_id :: string
  c_participantIds :: "string list"
  c_messages :: "privateMessage list"
  c_createdAt :: int
  c_lastMessageAt :: "int option"
  c_lastReadAt :: "int option"

text \<open>
  \<^verbatim>\<open>[userId1, userId2].sort()\<close> has no comparison function: the elements are
  ordered as strings. \<open>sort\<close> on the lexicographic order of strings computes that
  order; both indices read afterwards are inside the two-element array.
\<close>

definition getConversationId :: "string \<Rightarrow> string \<Rightarrow> string" where
  "getConversationId userId1 userId2 =
     (let sorted_ids = sort [userId1, userId2]
      in ''conv_'' @ sorted_ids ! 0 @ ''_'' @ sorted_ids ! 1)"

text \<open>
  The conversations are the own properties of one plain object, a list of key and
  value in insertion order. Reading \<^verbatim>\<open>conversations[key]\<close> is a property
  lookup: an own property gives its value; otherwise the lookup goes on to
  \<^verbatim>\<open>Object.prototype\<close>, whose properties (all functions, or the prototype
  object itself for \<^verbatim>\<open>__proto__\<close>) are truthy values that are no conversations
  and have no \<^verbatim>\<open>messages\<close>; otherwise the result is \<^verbatim>\<open>undefined\<close>.
\<close>

type_synonym conversations = "(string \<times> conversation) list"

datatype 'a property = Own 'a | Inherited | Undefined

definition objectPrototypeKeys :: "string list" where
  "objectPrototypeKeys =
     [''constructor'', ''__proto__'', ''hasOwnProperty'', ''isPrototypeOf'',
      ''propertyIsEnumerable'', ''toString'', ''toLocaleString'', ''valueOf'',
      ''__defineGetter__'', ''__defineSetter__'', ''__lookupGetter__'',
      ''__lookupSetter__'']"

definition getProperty :: "(string \<times> 'a) list \<Rightarrow> string \<Rightarrow> 'a property" where
  "getProperty obj key =
     (case map_of obj key of
        Some v \<Rightarrow> Own v
      | None \<Rightarrow> if key \<in> set objectPrototypeKeys then Inherited else Undefined)"

text \<open>
  The state of this module: the stored object, and the lines written with
  \<^verbatim>\<open>console.warn\<close>.
\<close>

record pm_world =
  pm_storage :: "conversations option"
  pm_console :: "string list"

definition loadPrivateConversations :: "pm_world \<Rightarrow> conversations" where
  "loadPrivateConversations w = (case pm_storage w of None \<Rightarrow> [] | Some obj \<Rightarrow> obj)"

definition savePrivateConversations :: "conversations \<Rightarrow> pm_world \<Rightarrow> pm_world" where
  "savePrivateConversations obj w = w\<lparr> pm_storage := Some obj \<rparr>"

text \<open>
  \<^verbatim>\<open>getOrCreateConversation\<close> returns \<^verbatim>\<open>conversations[conversationId]\<close>, whatever
  the lookup gave when it was truthy.
\<close>

definition getOrCreateConversation ::
  "string \<Rightarrow> string \<Rightarrow> int \<Rightarrow> pm_world \<Rightarrow> conversation property \<times> pm_world" where
  "getOrCreateConversation userId1 userId2 now w =
     (let conversationId = getConversationId userId1 userId2;
          obj = loadPrivateConversations w
      in case getProperty obj conversationId of
           Undefined \<Rightarrow>
             (let created = \<lparr> c_id = conversationId,
                               c_participantIds = sort [userId1, userId2],
                               c_messages = [], c_createdAt = now,
                               c_lastMessageAt = None, c_lastReadAt = None \<rparr>
              in (Own created,
                  savePrivateConversations (AList.update conversationId created obj) w))
         | found \<Rightarrow> (found, w))"

text \<open>
  \<^verbatim>\<open>addMessageToConversation\<close> takes the fields \<^verbatim>\<open>senderId\<close>, \<^verbatim>\<open>senderName\<close>
  and \<^verbatim>\<open>text\<close> of its message argument. When the lookup gives a falsy value it
  warns and returns \<^verbatim>\<open>null\<close> (\<open>Inr None\<close>). When the lookup gives an inherited
  property, \<^verbatim>\<open>conversation.messages\<close> is \<^verbatim>\<open>undefined\<close> and the call of
  \<^verbatim>\<open>push\<close> on it throws a \<^verbatim>\<open>TypeError\<close> before anything is saved.
\<close>

definition addMessageToConversation ::
  "string \<Rightarrow> string \<Rightarrow> string \<Rightarrow> string \<Rightarrow> int \<Rightarrow> string \<Rightarrow> int \<Rightarrow> pm_world
     \<Rightarrow> (js_error + conversation option) \<times> pm_world" where
  "addMessageToConversation conversationId senderId senderName text idNow rnd now w =
     (let obj = loadPrivateConversations w
      in case getProperty obj conversationId of
           Undefined \<Rightarrow>
             (Inr None,
              w\<lparr> pm_console := pm_console w @ [''Conversation not found: '' @ conversationId] \<rparr>)
         | Inherited \<Rightarrow> (Inl TypeError, w)
         | Own conv \<Rightarrow>
             (let newMessage = \<lparr> m_id = ''msg_'' @ show_int idNow @ ''_'' @ rnd,
                                  m_conversationId = conversationId,
                                  m_senderId = senderId, m_senderName = senderName,
                                  m_text = text, m_createdAt = now \<rparr>;
                  conv' = conv\<lparr> c_messages := c_messages conv @ [newMessage],
                                c_lastMessageAt := Some (m_createdAt newMessage) \<rparr>
              in (Inr (Some conv'),
                  savePrivateConversations (AList.update conversationId conv' obj) w)))"

definition getConversation :: "string \<Rightarrow> pm_world \<Rightarrow> conversation property" where
  "getConversation conversationId w = getProperty (loadPrivateConversations w) conversationId"

section \<open>Concrete states used in the instances below\<close>

definition invite0 :: invite where
  "invite0 = \<lparr> i_id = ''inv_1_a'', i_token = ''T'', i_fromUserId = ''A'',
               i_fromUserName = ''Alice'', i_createdAt = 1, i_status = Active,
               i_usedByUserId = None, i_usedAt = None \<rparr>"

definition invite_empty_token :: invite where
  "invite_empty_token = invite0\<lparr> i_token := [] \<rparr>"

definition invite1 :: invite where
  "invite1 = invite0\<lparr> i_id := ''inv_2_b'' \<rparr>"

definition update_a :: eventUpdate where
  "update_a = \<lparr> u_id = ''upd_5_a'', u_type = ''event_chat'', u_eventId = ''e1'',
               u_actorId = Some ''u1'', u_actorName = Some ''Alice'', u_message = Some ''hi'',
               u_createdAt = 5, u_resolved = False \<rparr>"

definition update_b :: eventUpdate where
  "update_b = \<lparr> u_id = ''upd_5_b'', u_type = ''join_request'', u_eventId = ''e2'',
               u_actorId = Some ''u2'', u_actorName = Some ''Bob'', u_message = None,
               u_createdAt = 5, u_resolved = False \<rparr>"

definition update_c :: eventUpdate where
  "update_c = \<lparr> u_id = ''upd_9_c'', u_type = ''event_updated'', u_eventId = ''e1'',
               u_actorId = Some ''u3'', u_actorName = Some ''Carol'', u_message = None,
               u_createdAt = 9, u_resolved = True \<rparr>"

definition text120 :: string where
  "text120 = concat (replicate 12 ''0123456789'')"

definition request0 :: friendRequest where
  "request0 = \<lparr> fr_id = ''freq_1_a'', fr_fromUserId = ''u3'', fr_fromUserName = ''Carol'',
                fr_toUserId = ''u1'', fr_toUserName = ''Alice'', fr_status = Pending,
                fr_createdAt = 1 \<rparr>"

definition empty_world :: pm_world where
  "empty_world = \<lparr> pm_storage = None, pm_console = [] \<rparr>"

definition conversation0 :: conversation where
  "conversation0 = \<lparr> c_id = ''conv_u1_u3'', c_participantIds = [''u1'', ''u3''],
                     c_messages = [], c_createdAt = 1, c_lastMessageAt = None,
                     c_lastReadAt = None \<rparr>"

definition world_one :: pm_world where
  "world_one = \<lparr> pm_storage = Some [(''conv_u1_u3'', conversation0)], pm_console = [] \<rparr>"

section \<open>Properties of the invite ledger\<close>

lemma loadInvites_saveInvites: "loadInvites (saveInvites xs st) = xs"
  by (simp add: loadInvites_def saveInvites_def)

lemma length_markInvites: "length (markInvites t u clock k xs) = length xs"
  by (induction xs arbitrary: k) simp_all

lemma length_markInviteAsUsed:
  "length (loadInvites (markInviteAsUsed t u clock st)) = length (loadInvites st)"
  by (simp add: markInviteAsUsed_def loadInvites_saveInvites length_markInvites)

text \<open>
  The invite at position \<open>i\<close> is rewritten with the clock value of the read that
  belongs to it: as many reads were made before as invites with the token stand
  before it.
\<close>

lemma markInvites_nth:
  "i < length xs \<Longrightarrow> i_token (xs ! i) = t \<Longrightarrow>
   markInvites t u clock k xs ! i =
     (xs ! i)\<lparr> i_status := Used, i_usedByUserId := Some u,
                i_usedAt := Some (clock (k + length (filter (\<lambda>iv. i_token iv = t) (take i xs)))) \<rparr>"
proof (induction xs arbitrary: i k)
  case Nil
  then show ?case by simp
next
  case (Cons x xs)
  show ?case
  proof (cases i)
    case 0
    with Cons.prems show ?thesis by simp
  next
    case (Suc j)
    with Cons.prems have j: "j < length xs" and tj: "i_token (xs ! j) = t" by simp_all
    from Cons.IH [OF j tj] Suc show ?thesis by simp
  qed
qed

lemma markInvites_nth_other:
  "i < length xs \<Longrightarrow> i_token (xs ! i) \<noteq> t \<Longrightarrow> markInvites t u clock k xs ! i = xs ! i"
proof (induction xs arbitrary: i k)
  case Nil
  then show ?case by simp
next
  case (Cons x xs)
  then show ?case by (cases i) simp_all
qed

text \<open>
  Claim C1 says that a second \<^verbatim>\<open>markInviteAsUsed\<close> on a token that is already used
  leaves \<^verbatim>\<open>usedAt\<close> and \<^verbatim>\<open>usedByUserId\<close> at their first values. The function
  has no guard on the status: on the invite created for Alice with token \<open>T\<close>,
  marked by \<open>u1\<close> when the clock shows 100 and again by \<open>u2\<close> when it shows 200,
  the fields read \<open>u1\<close> and 100 after the first call and \<open>u2\<close> and 200 after the
  second.
\<close>

theorem markInviteAsUsed_second_call_counterexample:
  "i_usedByUserId (loadInvites (markInviteAsUsed ''T'' ''u1'' (\<lambda>k. 100) (Some [invite0])) ! 0) =
     Some ''u1'' \<and>
   i_usedAt (loadInvites (markInviteAsUsed ''T'' ''u1'' (\<lambda>k. 100) (Some [invite0])) ! 0) =
     Some 100 \<and>
   i_usedByUserId (loadInvites (markInviteAsUsed ''T'' ''u2'' (\<lambda>k. 200)
       (markInviteAsUsed ''T'' ''u1'' (\<lambda>k. 100) (Some [invite0]))) ! 0) = Some ''u2'' \<and>
   i_usedAt (loadInvites (markInviteAsUsed ''T'' ''u2'' (\<lambda>k. 200)
       (markInviteAsUsed ''T'' ''u1'' (\<lambda>k. 100) (Some [invite0]))) ! 0) = Some 200"
  by (simp add: markInviteAsUsed_def loadInvites_def saveInvites_def invite0_def)

text \<open>
  Claim C1, as amended: whatever an invite with token \<open>t\<close> recorded before, after
  \<^verbatim>\<open>markInviteAsUsed(t, u2)\<close> it is the same invite with status \<open>used\<close>,
  \<^verbatim>\<open>usedByUserId\<close> \<open>u2\<close>, and as \<^verbatim>\<open>usedAt\<close> the value the clock showed when
  the call rewrote this invite, which is the read that follows one read for every
  invite with the token standing before it: the last call wins, and the other fields
  are kept.
\<close>

theorem markInviteAsUsed_overwrites:
  assumes "i < length (loadInvites st)" and "i_token (loadInvites st ! i) = t"
  shows "loadInvites (markInviteAsUsed t u2 clock2 st) ! i =
           (loadInvites st ! i)\<lparr> i_status := Used, i_usedByUserId := Some u2,
             i_usedAt := Some (clock2 (length (filter (\<lambda>iv. i_token iv = t)
                                                 (take i (loadInvites st))))) \<rparr>"
  using assms
  by (simp add: markInviteAsUsed_def loadInvites_saveInvites markInvites_nth)

theorem markInviteAsUsed_overwrites_witness:
  "loadInvites (markInviteAsUsed ''T'' ''u1'' (\<lambda>k. 100 + int k) (Some [invite0, invite1])) =
     [invite0\<lparr> i_status := Used, i_usedByUserId := Some ''u1'', i_usedAt := Some 100 \<rparr>,
      invite1\<lparr> i_status := Used, i_usedByUserId := Some ''u1'', i_usedAt := Some 101 \<rparr>] \<and>
   i_token invite1 = ''T'' \<and>
   loadInvites (markInviteAsUsed ''T'' ''u2'' (\<lambda>k. 200 + int k)
       (markInviteAsUsed ''T'' ''u1'' (\<lambda>k. 100 + int k) (Some [invite0, invite1]))) ! 1 =
     invite1\<lparr> i_status := Used, i_usedByUserId := Some ''u2'', i_usedAt := Some 201 \<rparr>"
proof -
  let ?st = "markInviteAsUsed ''T'' ''u1'' (\<lambda>k. 100 + int k) (Some [invite0, invite1])"
  have ld: "loadInvites ?st =
     [invite0\<lparr> i_status := Used, i_usedByUserId := Some ''u1'', i_usedAt := Some 100 \<rparr>,
      invite1\<lparr> i_status := Used, i_usedByUserId := Some ''u1'', i_usedAt := Some 101 \<rparr>]"
    by (simp add: markInviteAsUsed_def loadInvites_def saveInvites_def invite0_def invite1_def)
  have tk: "i_token invite1 = ''T''" by (simp add: invite1_def invite0_def)
  have l: "1 < length (loadInvites ?st)" by (simp add: ld)
  have t: "i_token (loadInvites ?st ! 1) = ''T''" by (simp add: ld tk)
  have rd: "length (filter (\<lambda>iv. i_token iv = ''T'') (take 1 (loadInvites ?st))) = 1"
    unfolding ld by (simp add: invite0_def)
  from markInviteAsUsed_overwrites [OF l t, of "''u2''" "\<lambda>k. 200 + int k"]
  have "loadInvites (markInviteAsUsed ''T'' ''u2'' (\<lambda>k. 200 + int k) ?st) ! 1 =
          invite1\<lparr> i_status := Used, i_usedByUserId := Some ''u2'', i_usedAt := Some 201 \<rparr>"
    unfolding rd by (simp add: ld)
  with ld tk show ?thesis by simp
qed

lemma find_marked:
  "\<exists>iv \<in> set xs. i_token iv = t \<Longrightarrow>
   \<exists>iv'. find (\<lambda>iv. i_token iv = t) (markInvites t u clock k xs) = Some iv' \<and>
         i_status iv' = Used"
  by (induction xs arbitrary: k) auto

lemma validateInvite_after_mark:
  assumes "t \<noteq> []" and "\<exists>iv \<in> set (loadInvites st). i_token iv = t"
  shows "fst (validateInvite (Some t) (markInviteAsUsed t u clock st)) =
           Invalid ''This invite is no longer valid''"
proof -
  from find_marked [OF assms(2), where u = u and clock = clock and k = 0] obtain iv' where
    "findInviteByToken t (markInviteAsUsed t u clock st) = Some iv'" and "i_status iv' = Used"
    by (auto simp: findInviteByToken_def markInviteAsUsed_def loadInvites_saveInvites)
  with assms(1) show ?thesis by (simp add: validateInvite_def)
qed

text \<open>
  Claim C2 gives the reasons as \<open>no token\<close>, \<open>not found\<close>, \<open>already used\<close> and
  \<open>expired\<close>, and says that validation after \<^verbatim>\<open>markInviteAsUsed\<close> always answers
  \<open>already used\<close>. The reason returned for a used invite is the sentence
  \<open>This invite is no longer valid\<close>, not the string \<open>already used\<close>; and for an
  invite whose token is the empty string the check for a missing token comes first,
  so the answer after marking it is \<open>No invite token provided\<close>.
\<close>

theorem validateInvite_reason_counterexample:
  "fst (validateInvite (Some ''T'') (markInviteAsUsed ''T'' ''B'' (\<lambda>k. 2) (Some [invite0]))) =
     Invalid ''This invite is no longer valid'' \<and>
   fst (validateInvite (Some ''T'') (markInviteAsUsed ''T'' ''B'' (\<lambda>k. 2) (Some [invite0]))) \<noteq>
     Invalid ''already used'' \<and>
   fst (validateInvite (Some []) (markInviteAsUsed [] ''B'' (\<lambda>k. 2) (Some [invite_empty_token]))) =
     Invalid ''No invite token provided''"
  by (simp add: validateInvite_def findInviteByToken_def markInviteAsUsed_def loadInvites_def
        saveInvites_def invite0_def invite_empty_token_def)

text \<open>
  Claim C2, as amended: \<^verbatim>\<open>validateInvite\<close> checks, in this order, a missing or
  empty token (\<open>No invite token provided\<close>), no invite with the token
  (\<open>Invite not found\<close>), status used (\<open>This invite is no longer valid\<close>), status
  expired (\<open>This invite has expired\<close>), and otherwise returns the invite as valid;
  after \<^verbatim>\<open>markInviteAsUsed\<close> on a non-empty token that some invite of the
  collection carries, validating that token answers \<open>This invite is no longer valid\<close>;
  and \<^verbatim>\<open>validateInvite\<close> leaves the store as it was.
\<close>

theorem validateInvite_checks:
  "fst (validateInvite None st) = Invalid ''No invite token provided'' \<and>
   fst (validateInvite (Some []) st) = Invalid ''No invite token provided'' \<and>
   (t \<noteq> [] \<and> findInviteByToken t st = None \<longrightarrow>
      fst (validateInvite (Some t) st) = Invalid ''Invite not found'') \<and>
   (t \<noteq> [] \<and> findInviteByToken t st = Some iv \<and> i_status iv = Used \<longrightarrow>
      fst (validateInvite (Some t) st) = Invalid ''This invite is no longer valid'') \<and>
   (t \<noteq> [] \<and> findInviteByToken t st = Some iv \<and> i_status iv = Expired \<longrightarrow>
      fst (validateInvite (Some t) st) = Invalid ''This invite has expired'') \<and>
   (t \<noteq> [] \<and> findInviteByToken t st = Some iv \<and> i_status iv = Active \<longrightarrow>
      fst (validateInvite (Some t) st) = Valid iv) \<and>
   (t \<noteq> [] \<and> (\<exists>iv' \<in> set (loadInvites st). i_token iv' = t) \<longrightarrow>
      fst (validateInvite (Some t) (markInviteAsUsed t u clock st)) =
        Invalid ''This invite is no longer valid'') \<and>
   snd (validateInvite tok st) = st"
proof -
  have "snd (validateInvite tok st) = st"
    by (simp add: validateInvite_def split: option.splits)
  moreover have "t \<noteq> [] \<and> (\<exists>iv' \<in> set (loadInvites st). i_token iv' = t) \<longrightarrow>
      fst (validateInvite (Some t) (markInviteAsUsed t u clock st)) =
        Invalid ''This invite is no longer valid''"
    using validateInvite_after_mark by blast
  ultimately show ?thesis
    by (simp add: validateInvite_def)
qed

theorem validateInvite_checks_witness:
  "(''X'' \<noteq> [] \<and> findInviteByToken ''X'' (Some [invite0]) = None \<and>
      fst (validateInvite (Some ''X'') (Some [invite0])) = Invalid ''Invite not found'') \<and>
   (''T'' \<noteq> [] \<and>
      findInviteByToken ''T'' (Some [invite0\<lparr> i_status := Used \<rparr>]) =
        Some (invite0\<lparr> i_status := Used \<rparr>) \<and>
      i_status (invite0\<lparr> i_status := Used \<rparr>) = Used \<and>
      fst (validateInvite (Some ''T'') (Some [invite0\<lparr> i_status := Used \<rparr>])) =
        Invalid ''This invite is no longer valid'') \<and>
   (findInviteByToken ''T'' (Some [invite0\<lparr> i_status := Expired \<rparr>]) =
        Some (invite0\<lparr> i_status := Expired \<rparr>) \<and>
      i_status (invite0\<lparr> i_status := Expired \<rparr>) = Expired \<and>
      fst (validateInvite (Some ''T'') (Some [invite0\<lparr> i_status := Expired \<rparr>])) =
        Invalid ''This invite has expired'') \<and>
   (findInviteByToken ''T'' (Some [invite0]) = Some invite0 \<and> i_status invite0 = Active \<and>
      fst (validateInvite (Some ''T'') (Some [invite0])) = Valid invite0) \<and>
   ((\<exists>iv' \<in> set (loadInvites (Some [invite0])). i_token iv' = ''T'') \<and>
      fst (validateInvite (Some ''T'') (markInviteAsUsed ''T'' ''B'' (\<lambda>k. 2) (Some [invite0]))) =
        Invalid ''This invite is no longer valid'')"
proof -
  have f0: "findInviteByToken ''X'' (Some [invite0]) = None"
    by (simp add: findInviteByToken_def loadInvites_def invite0_def)
  have f1: "findInviteByToken ''T'' (Some [invite0\<lparr> i_status := Used \<rparr>]) =
              Some (invite0\<lparr> i_status := Used \<rparr>)"
    by (simp add: findInviteByToken_def loadInvites_def invite0_def)
  have f2: "findInviteByToken ''T'' (Some [invite0\<lparr> i_status := Expired \<rparr>]) =
              Some (invite0\<lparr> i_status := Expired \<rparr>)"
    by (simp add: findInviteByToken_def loadInvites_def invite0_def)
  have f3: "findInviteByToken ''T'' (Some [invite0]) = Some invite0"
    by (simp add: findInviteByToken_def loadInvites_def invite0_def)
  have a3: "i_status invite0 = Active" by (simp add: invite0_def)
  have e: "\<exists>iv' \<in> set (loadInvites (Some [invite0])). i_token iv' = ''T''"
    by (simp add: loadInvites_def invite0_def)
  note c0 = validateInvite_checks [where t = "''X''" and st = "Some [invite0]"]
  note c1 = validateInvite_checks [where t = "''T''" and st = "Some [invite0\<lparr> i_status := Used \<rparr>]"
      and iv = "invite0\<lparr> i_status := Used \<rparr>"]
  note c2 = validateInvite_checks [where t = "''T''" and st = "Some [invite0\<lparr> i_status := Expired \<rparr>]"
      and iv = "invite0\<lparr> i_status := Expired \<rparr>"]
  note c3 = validateInvite_checks [where t = "''T''" and st = "Some [invite0]" and iv = invite0
      and u = "''B''" and clock = "\<lambda>k. 2"]
  from f0 c0 have r0: "fst (validateInvite (Some ''X'') (Some [invite0])) = Invalid ''Invite not found''"
    by simp
  from f1 c1 have r1: "fst (validateInvite (Some ''T'') (Some [invite0\<lparr> i_status := Used \<rparr>])) =
        Invalid ''This invite is no longer valid''"
    by simp
  from f2 c2 have r2: "fst (validateInvite (Some ''T'') (Some [invite0\<lparr> i_status := Expired \<rparr>])) =
        Invalid ''This invite has expired''"
    by simp
  from f3 a3 c3 have r3: "fst (validateInvite (Some ''T'') (Some [invite0])) = Valid invite0"
    by simp
  from e c3 have r4: "fst (validateInvite (Some ''T'') (markInviteAsUsed ''T'' ''B'' (\<lambda>k. 2) (Some [invite0]))) =
        Invalid ''This invite is no longer valid''"
    by simp
  from f0 f1 f2 f3 a3 e r0 r1 r2 r3 r4 show ?thesis by simp
qed

section \<open>Properties of the event update log\<close>

lemma loadEventUpdates_saveEventUpdates: "loadEventUpdates (saveEventUpdates xs st) = xs"
  by (simp add: loadEventUpdates_def saveEventUpdates_def)

lemma loadEventUpdates_addEventUpdate:
  "loadEventUpdates (snd (addEventUpdate upd st)) = loadEventUpdates st @ [upd]"
  by (simp add: addEventUpdate_def Let_def loadEventUpdates_saveEventUpdates)

lemma apply_update_op_keeps:
  assumes "i < length (loadEventUpdates st)"
  shows "i < length (loadEventUpdates (apply_update_op oper st)) \<and>
         (loadEventUpdates (apply_update_op oper st) ! i)\<lparr> u_resolved := True \<rparr> =
           (loadEventUpdates st ! i)\<lparr> u_resolved := True \<rparr> \<and>
         (u_resolved (loadEventUpdates st ! i) \<longrightarrow>
            u_resolved (loadEventUpdates (apply_update_op oper st) ! i))"
proof (cases oper)
  case (AddEventUpdate upd)
  with assms show ?thesis
    by (simp add: loadEventUpdates_addEventUpdate nth_append)
next
  case (ResolveUpdate updateId)
  with assms show ?thesis
    by (simp add: resolveUpdate_def loadEventUpdates_saveEventUpdates)
next
  case (ResolveUpdatesByEvent eventId)
  with assms show ?thesis
    by (simp add: resolveUpdatesByEvent_def loadEventUpdates_saveEventUpdates)
next
  case (ResolveUpdatesByEventAndType eventId type)
  with assms show ?thesis
    by (simp add: resolveUpdatesByEventAndType_def loadEventUpdates_saveEventUpdates)
qed

text \<open>
  Claim C3: the \<^verbatim>\<open>resolved\<close> flag is monotonic and the log only grows. For each
  of \<^verbatim>\<open>addEventUpdate\<close>, \<^verbatim>\<open>resolveUpdate\<close>, \<^verbatim>\<open>resolveUpdatesByEvent\<close> and
  \<^verbatim>\<open>resolveUpdatesByEventAndType\<close>, the update at any position of the log before
  the call is at the same position afterwards, equal in every field but
  \<^verbatim>\<open>resolved\<close>, and if it was resolved before it is resolved afterwards.
\<close>

theorem resolved_monotonic:
  assumes "i < length (loadEventUpdates st)"
  shows "i < length (loadEventUpdates (apply_update_op oper st)) \<and>
         (loadEventUpdates (apply_update_op oper st) ! i)\<lparr> u_resolved := True \<rparr> =
           (loadEventUpdates st ! i)\<lparr> u_resolved := True \<rparr> \<and>
         (u_resolved (loadEventUpdates st ! i) \<longrightarrow>
            u_resolved (loadEventUpdates (apply_update_op oper st) ! i))"
  using assms by (rule apply_update_op_keeps)

theorem resolved_monotonic_witness:
  "0 < length (loadEventUpdates (Some [update_c, update_a])) \<and>
   u_resolved (loadEventUpdates (Some [update_c, update_a]) ! 0) \<and>
   u_resolved (loadEventUpdates
      (apply_update_op (AddEventUpdate update_b) (Some [update_c, update_a])) ! 0) \<and>
   u_resolved (loadEventUpdates
      (apply_update_op (ResolveUpdate ''upd_5_a'') (Some [update_c, update_a])) ! 0) \<and>
   u_resolved (loadEventUpdates
      (apply_update_op (ResolveUpdatesByEvent ''e1'') (Some [update_c, update_a])) ! 0) \<and>
   u_resolved (loadEventUpdates
      (apply_update_op (ResolveUpdatesByEventAndType ''e1'' ''event_chat'')
         (Some [update_c, update_a])) ! 0)"
proof -
  have l: "0 < length (loadEventUpdates (Some [update_c, update_a]))"
    by (simp add: loadEventUpdates_def)
  have r: "u_resolved (loadEventUpdates (Some [update_c, update_a]) ! 0)"
    by (simp add: loadEventUpdates_def update_c_def)
  from r resolved_monotonic [OF l, of "AddEventUpdate update_b"]
    resolved_monotonic [OF l, of "ResolveUpdate ''upd_5_a''"]
    resolved_monotonic [OF l, of "ResolveUpdatesByEvent ''e1''"]
    resolved_monotonic [OF l, of "ResolveUpdatesByEventAndType ''e1'' ''event_chat''"]
  show ?thesis using l by blast
qed

text \<open>The same holds along every sequence of these operations.\<close>

lemma apply_update_ops_keeps:
  "i < length (loadEventUpdates st) \<Longrightarrow>
   i < length (loadEventUpdates (apply_update_ops ops st)) \<and>
   (loadEventUpdates (apply_update_ops ops st) ! i)\<lparr> u_resolved := True \<rparr> =
     (loadEventUpdates st ! i)\<lparr> u_resolved := True \<rparr> \<and>
   (u_resolved (loadEventUpdates st ! i) \<longrightarrow>
      u_resolved (loadEventUpdates (apply_update_ops ops st) ! i))"
proof (induction ops arbitrary: st)
  case Nil
  then show ?case by simp
next
  case (Cons oper ops)
  from apply_update_op_keeps [OF Cons.prems, of oper]
  have step: "i < length (loadEventUpdates (apply_update_op oper st))"
    and same: "(loadEventUpdates (apply_update_op oper st) ! i)\<lparr> u_resolved := True \<rparr> =
           (loadEventUpdates st ! i)\<lparr> u_resolved := True \<rparr>"
    and mono: "u_resolved (loadEventUpdates st ! i) \<longrightarrow>
            u_resolved (loadEventUpdates (apply_update_op oper st) ! i)"
    by simp_all
  from Cons.IH [OF step] same mono show ?case by simp
qed

text \<open>
  Claim C6: \<^verbatim>\<open>resolveUpdate\<close> twice gives the state that one call gives; and when
  every update carrying the id is already resolved, which includes the case that no
  update carries it, the collection is left as it was. The function has no failing
  branch: it is total and returns the store. (On a store that was never written the
  call saves the empty collection, which is what the loader returned before.)
\<close>

theorem resolveUpdate_idempotent:
  "resolveUpdate updateId (resolveUpdate updateId st) = resolveUpdate updateId st \<and>
   ((\<forall>upd \<in> set (loadEventUpdates st). u_id upd = updateId \<longrightarrow> u_resolved upd) \<longrightarrow>
      loadEventUpdates (resolveUpdate updateId st) = loadEventUpdates st)"
proof
  show "resolveUpdate updateId (resolveUpdate updateId st) = resolveUpdate updateId st"
    by (auto simp: resolveUpdate_def saveEventUpdates_def loadEventUpdates_def)
next
  show "(\<forall>upd \<in> set (loadEventUpdates st). u_id upd = updateId \<longrightarrow> u_resolved upd) \<longrightarrow>
      loadEventUpdates (resolveUpdate updateId st) = loadEventUpdates st"
  proof
    assume a: "\<forall>upd \<in> set (loadEventUpdates st). u_id upd = updateId \<longrightarrow> u_resolved upd"
    have "map (\<lambda>upd. if u_id upd = updateId then upd\<lparr> u_resolved := True \<rparr> else upd)
            (loadEventUpdates st) = loadEventUpdates st"
      using a by (intro map_idI) auto
    then show "loadEventUpdates (resolveUpdate updateId st) = loadEventUpdates st"
      by (simp add: resolveUpdate_def loadEventUpdates_saveEventUpdates)
  qed
qed

theorem resolveUpdate_idempotent_witness:
  "map u_resolved (filter (\<lambda>upd. u_id upd = ''upd_9_c'')
      (loadEventUpdates (Some [update_c, update_a]))) = [True] \<and>
   loadEventUpdates (resolveUpdate ''upd_9_c'' (Some [update_c, update_a])) =
     [update_c, update_a] \<and>
   filter (\<lambda>upd. u_id upd = ''upd_0_none'')
      (loadEventUpdates (Some [update_c, update_a])) = [] \<and>
   loadEventUpdates (resolveUpdate ''upd_0_none'' (Some [update_c, update_a])) =
     [update_c, update_a] \<and>
   resolveUpdate ''upd_5_a'' (resolveUpdate ''upd_5_a'' (Some [update_c, update_a])) =
     resolveUpdate ''upd_5_a'' (Some [update_c, update_a])"
proof -
  have f1: "map u_resolved (filter (\<lambda>upd. u_id upd = ''upd_9_c'')
      (loadEventUpdates (Some [update_c, update_a]))) = [True]"
    by (simp add: loadEventUpdates_def update_c_def update_a_def)
  have f2: "filter (\<lambda>upd. u_id upd = ''upd_0_none'')
      (loadEventUpdates (Some [update_c, update_a])) = []"
    by (simp add: loadEventUpdates_def update_c_def update_a_def)
  have h1: "\<forall>upd \<in> set (loadEventUpdates (Some [update_c, update_a])).
      u_id upd = ''upd_9_c'' \<longrightarrow> u_resolved upd"
    by (simp add: loadEventUpdates_def update_c_def update_a_def)
  have h2: "\<forall>upd \<in> set (loadEventUpdates (Some [update_c, update_a])).
      u_id upd = ''upd_0_none'' \<longrightarrow> u_resolved upd"
    by (simp add: loadEventUpdates_def update_c_def update_a_def)
  have ld: "loadEventUpdates (Some [update_c, update_a]) = [update_c, update_a]"
    by (simp add: loadEventUpdates_def)
  from h1 h2 ld
    resolveUpdate_idempotent [of "''upd_9_c''" "Some [update_c, update_a]"]
    resolveUpdate_idempotent [of "''upd_0_none''" "Some [update_c, update_a]"]
    resolveUpdate_idempotent [of "''upd_5_a''" "Some [update_c, update_a]"]
  have "loadEventUpdates (resolveUpdate ''upd_9_c'' (Some [update_c, update_a])) =
          [update_c, update_a]"
    and "loadEventUpdates (resolveUpdate ''upd_0_none'' (Some [update_c, update_a])) =
          [update_c, update_a]"
    and "resolveUpdate ''upd_5_a'' (resolveUpdate ''upd_5_a'' (Some [update_c, update_a])) =
          resolveUpdate ''upd_5_a'' (Some [update_c, update_a])"
    by simp_all
  with f1 f2 show ?thesis by simp
qed

section \<open>Properties of the private conversation store\<close>

text \<open>
  Claim C4: the conversation id does not depend on the order of the two
  participants.
\<close>

theorem getConversationId_commutative:
  "getConversationId a b = getConversationId b a"
  by (auto simp: getConversationId_def Let_def)


lemma getConversationId_not_inherited:
  "getConversationId a b \<notin> set objectPrototypeKeys"
  by (simp add: getConversationId_def Let_def objectPrototypeKeys_def)

lemma addMessageToConversation_missing:
  assumes "map_of (loadPrivateConversations w) conversationId = None"
    and "conversationId \<notin> set objectPrototypeKeys"
  shows "addMessageToConversation conversationId senderId senderName text idNow rnd now w =
           (Inr None,
            w\<lparr> pm_console := pm_console w @ [''Conversation not found: '' @ conversationId] \<rparr>)"
  using assms by (simp add: addMessageToConversation_def getProperty_def)

lemma addMessageToConversation_absent_keeps_storage:
  assumes "map_of (loadPrivateConversations w) conversationId = None"
  shows "pm_storage (snd (addMessageToConversation conversationId senderId senderName text
                            idNow rnd now w)) = pm_storage w"
  using assms by (simp add: addMessageToConversation_def getProperty_def)

text \<open>
  Claim C7: for a conversation id that is no key of the stored conversations,
  \<^verbatim>\<open>addMessageToConversation\<close> returns \<^verbatim>\<open>null\<close>, writes the warning, creates no
  entry and leaves the stored object as it was. Conversation ids are the strings
  that \<^verbatim>\<open>getConversationId\<close> forms, and for every one of them this holds with no
  further condition (second part); it holds as well for every other string that is
  not the name of a property of \<^verbatim>\<open>Object.prototype\<close> (first part). That nothing
  is saved and no entry appears holds for every string that is no key (third part).
\<close>

theorem addMessageToConversation_not_found:
  "(map_of (loadPrivateConversations w) conversationId = None \<and>
    conversationId \<notin> set objectPrototypeKeys \<longrightarrow>
      addMessageToConversation conversationId senderId senderName msgText idNow rnd now w =
        (Inr None,
         w\<lparr> pm_console := pm_console w @ [''Conversation not found: '' @ conversationId] \<rparr>)) \<and>
   (map_of (loadPrivateConversations w) (getConversationId a b) = None \<longrightarrow>
      addMessageToConversation (getConversationId a b) senderId senderName msgText idNow rnd now w =
        (Inr None,
         w\<lparr> pm_console :=
              pm_console w @ [''Conversation not found: '' @ getConversationId a b] \<rparr>)) \<and>
   (map_of (loadPrivateConversations w) conversationId = None \<longrightarrow>
      pm_storage (snd (addMessageToConversation conversationId senderId senderName msgText
                         idNow rnd now w)) = pm_storage w \<and>
      map_of (loadPrivateConversations
                (snd (addMessageToConversation conversationId senderId senderName msgText
                        idNow rnd now w))) conversationId = None)"
proof (intro conjI impI)
  assume "map_of (loadPrivateConversations w) conversationId = None \<and>
          conversationId \<notin> set objectPrototypeKeys"
  then show "addMessageToConversation conversationId senderId senderName msgText idNow rnd now w =
        (Inr None,
         w\<lparr> pm_console := pm_console w @ [''Conversation not found: '' @ conversationId] \<rparr>)"
    by (simp add: addMessageToConversation_missing)
next
  assume "map_of (loadPrivateConversations w) (getConversationId a b) = None"
  then show "addMessageToConversation (getConversationId a b) senderId senderName msgText
               idNow rnd now w =
        (Inr None,
         w\<lparr> pm_console :=
              pm_console w @ [''Conversation not found: '' @ getConversationId a b] \<rparr>)"
    by (simp add: addMessageToConversation_missing getConversationId_not_inherited)
next
  assume absent: "map_of (loadPrivateConversations w) conversationId = None"
  then show st: "pm_storage (snd (addMessageToConversation conversationId senderId senderName
                   msgText idNow rnd now w)) = pm_storage w"
    by (rule addMessageToConversation_absent_keeps_storage)
  with absent show "map_of (loadPrivateConversations
                (snd (addMessageToConversation conversationId senderId senderName msgText
                        idNow rnd now w))) conversationId = None"
    by (simp add: loadPrivateConversations_def)
qed

theorem addMessageToConversation_not_found_witness:
  "getConversationId ''u2'' ''u1'' = ''conv_u1_u2'' \<and>
   map_of (loadPrivateConversations world_one) ''conv_u1_u2'' = None \<and>
   addMessageToConversation ''conv_u1_u2'' ''u1'' ''Alice'' ''hi'' 7 ''r'' 7 world_one =
     (Inr None, world_one\<lparr> pm_console := [''Conversation not found: conv_u1_u2''] \<rparr>) \<and>
   pm_storage (snd (addMessageToConversation ''conv_u1_u2'' ''u1'' ''Alice'' ''hi'' 7 ''r'' 7
                      world_one)) = Some [(''conv_u1_u3'', conversation0)]"
proof -
  have g: "getConversationId ''u2'' ''u1'' = ''conv_u1_u2''"
    by (simp add: getConversationId_def Let_def)
  have absent: "map_of (loadPrivateConversations world_one) ''conv_u1_u2'' = None"
    by (simp add: loadPrivateConversations_def world_one_def)
  have c: "pm_console world_one = []" and s: "pm_storage world_one = Some [(''conv_u1_u3'', conversation0)]"
    by (simp_all add: world_one_def)
  from absent
    addMessageToConversation_not_found [where w = world_one and a = "''u2''" and b = "''u1''"
      and conversationId = "''conv_u1_u2''" and senderId = "''u1''" and senderName = "''Alice''"
      and msgText = "''hi''" and idNow = 7 and rnd = "''r''" and now = 7]
  have "addMessageToConversation ''conv_u1_u2'' ''u1'' ''Alice'' ''hi'' 7 ''r'' 7 world_one =
     (Inr None, world_one\<lparr> pm_console := [''Conversation not found: conv_u1_u2''] \<rparr>)"
    and "pm_storage (snd (addMessageToConversation ''conv_u1_u2'' ''u1'' ''Alice'' ''hi'' 7 ''r'' 7
                      world_one)) = Some [(''conv_u1_u3'', conversation0)]"
    by (simp_all add: g c s)
  with g absent show ?thesis by simp
qed

text \<open>
  The name of a property of \<^verbatim>\<open>Object.prototype\<close>, which no conversation id is: the
  lookup on the empty store gives the inherited property, the not-found branch is not
  taken, and \<^verbatim>\<open>push\<close> on the missing \<^verbatim>\<open>messages\<close> throws. Nothing is saved.
\<close>

lemma addMessageToConversation_inherited_key:
  "addMessageToConversation ''constructor'' ''u1'' ''Alice'' ''hi'' 7 ''r'' 7 empty_world =
     (Inl TypeError, empty_world)"
  by (simp add: addMessageToConversation_def loadPrivateConversations_def getProperty_def
        objectPrototypeKeys_def empty_world_def)

section \<open>Properties of the inbox projection\<close>

lemma insertBy_createdAt:
  "insertBy (\<lambda>a b. u_createdAt b - u_createdAt a) x ys =
     insort_key (\<lambda>upd. - u_createdAt upd) x ys"
  by (induction ys) auto

lemma sortBy_createdAt:
  "sortBy (\<lambda>a b. u_createdAt b - u_createdAt a) xs = sort_key (\<lambda>upd. - u_createdAt upd) xs"
  by (induction xs) (simp_all add: sortBy_def insertBy_createdAt)

lemma sorted_desc:
  "sorted (map (\<lambda>upd. - u_createdAt upd) xs) \<Longrightarrow>
   sorted_wrt (\<lambda>a b. u_createdAt a \<ge> u_createdAt b) xs"
  by (induction xs) auto

text \<open>
  Claim C5 says that among unresolved updates with equal \<^verbatim>\<open>createdAt\<close> the one
  appended later comes first. The comparison function returns 0 for them and the
  sort is stable, so they keep their order in the log: with \<open>update_a\<close> appended
  before \<open>update_b\<close>, both created at time 5, the result lists \<open>update_a\<close> first.
\<close>

theorem getUnresolvedUpdates_ties_counterexample:
  "getUnresolvedUpdates (Some [update_a, update_c, update_b]) = [update_a, update_b] \<and>
   u_createdAt update_a = u_createdAt update_b \<and>
   getUnresolvedUpdates (Some [update_a, update_c, update_b]) \<noteq> [update_b, update_a]"
  by (simp add: getUnresolvedUpdates_def sortBy_def loadEventUpdates_def
        update_a_def update_b_def update_c_def)

text \<open>
  Claim C5, as amended: \<^verbatim>\<open>getUnresolvedUpdates\<close> returns exactly the updates with
  \<^verbatim>\<open>resolved\<close> false (as a multiset), in descending order of \<^verbatim>\<open>createdAt\<close>, and
  the updates with one and the same \<^verbatim>\<open>createdAt\<close> appear in the order in which
  the log holds them, the one appended earlier first.
\<close>

theorem getUnresolvedUpdates_stable:
  "mset (getUnresolvedUpdates st) =
     mset (filter (\<lambda>upd. \<not> u_resolved upd) (loadEventUpdates st)) \<and>
   sorted_wrt (\<lambda>a b. u_createdAt a \<ge> u_createdAt b) (getUnresolvedUpdates st) \<and>
   filter (\<lambda>upd. u_createdAt upd = k) (getUnresolvedUpdates st) =
     filter (\<lambda>upd. u_createdAt upd = k)
       (filter (\<lambda>upd. \<not> u_resolved upd) (loadEventUpdates st))"
proof -
  let ?xs = "filter (\<lambda>upd. \<not> u_resolved upd) (loadEventUpdates st)"
  have eq: "getUnresolvedUpdates st = sort_key (\<lambda>upd. - u_createdAt upd) ?xs"
    by (simp add: getUnresolvedUpdates_def sortBy_createdAt)
  have "filter (\<lambda>upd. - u_createdAt upd = - k) (sort_key (\<lambda>upd. - u_createdAt upd) ?xs) =
        filter (\<lambda>upd. - u_createdAt upd = - k) ?xs"
    by (rule sort_key_stable)
  then have st: "filter (\<lambda>upd. u_createdAt upd = k) (sort_key (\<lambda>upd. - u_createdAt upd) ?xs) =
        filter (\<lambda>upd. u_createdAt upd = k) ?xs"
    by simp
  have "sorted (map (\<lambda>upd. - u_createdAt upd) (sort_key (\<lambda>upd. - u_createdAt upd) ?xs))"
    by (rule sorted_sort_key)
  then have "sorted_wrt (\<lambda>a b. u_createdAt a \<ge> u_createdAt b)
               (sort_key (\<lambda>upd. - u_createdAt upd) ?xs)"
    by (rule sorted_desc)
  with st eq show ?thesis by simp
qed

text \<open>
  Claim C10: for a timestamp later than the clock, \<^verbatim>\<open>formatRelativeTime\<close>
  returns \<open>Just now\<close>.
\<close>

theorem formatRelativeTime_future:
  "now < timestamp \<Longrightarrow> formatRelativeTime timestamp now toLocaleDateString = ''Just now''"
proof -
  assume "now < timestamp"
  then have "now - timestamp < 0" by simp
  then have "(now - timestamp) div 60000 < 1"
    by (simp add: div_neg_pos_less0 less_le_trans)
  then show ?thesis by (simp add: formatRelativeTime_def Let_def)
qed

theorem formatRelativeTime_future_witness:
  "(1000::int) < 1001 \<and> formatRelativeTime 1001 1000 (\<lambda>t. ''Jan 1'') = ''Just now''"
  using formatRelativeTime_future [of 1000 1001 "\<lambda>t. ''Jan 1''"] by simp

section \<open>Properties of the emit helpers\<close>

text \<open>
  Claim C8: \<^verbatim>\<open>emitEventChatUpdate\<close> appends one update to the log; its message is
  the text itself when the text has at most 50 characters, and the first 50
  characters followed by three dots otherwise. The instance after it is the message
  of 120 characters.
\<close>

theorem emitEventChatUpdate_preview:
  "butlast (loadEventUpdates
      (snd (emitEventChatUpdate eventId senderId senderName messageText idNow rnd now st))) =
     loadEventUpdates st \<and>
   (length messageText \<le> 50 \<longrightarrow>
      u_message (last (loadEventUpdates
        (snd (emitEventChatUpdate eventId senderId senderName messageText idNow rnd now st)))) =
      Some messageText) \<and>
   (50 < length messageText \<longrightarrow>
      u_message (last (loadEventUpdates
        (snd (emitEventChatUpdate eventId senderId senderName messageText idNow rnd now st)))) =
      Some (take 50 messageText @ ''...''))"
  by (simp add: emitEventChatUpdate_def loadEventUpdates_addEventUpdate createEventUpdate_def)

theorem emitEventChatUpdate_preview_witness:
  "length text120 = 120 \<and>
   u_message (last (loadEventUpdates
      (snd (emitEventChatUpdate ''e1'' ''u1'' ''Alice'' text120 7 ''r'' 7 None)))) =
     Some ''01234567890123456789012345678901234567890123456789...'' \<and>
   length ''short'' \<le> 50 \<and>
   u_message (last (loadEventUpdates
      (snd (emitEventChatUpdate ''e1'' ''u1'' ''Alice'' ''short'' 7 ''r'' 7 None)))) =
     Some ''short''"
proof -
  have l: "length text120 = 120" by code_simp
  have t: "take 50 text120 @ ''...'' = ''01234567890123456789012345678901234567890123456789...''"
    by code_simp
  from l t emitEventChatUpdate_preview [of "''e1''" "''u1''" "''Alice''" text120 7 "''r''" 7 None]
    emitEventChatUpdate_preview [of "''e1''" "''u1''" "''Alice''" "''short''" 7 "''r''" 7 None]
  show ?thesis by simp
qed

section \<open>Properties of the friend relationship store\<close>

lemma loadFriendRequests_saveFriendRequests: "loadFriendRequests (saveFriendRequests xs st) = xs"
  by (simp add: loadFriendRequests_def saveFriendRequests_def)

lemma find_append_None: "find P xs = None \<Longrightarrow> find P (xs @ ys) = find P ys"
  by (induction xs) (auto split: if_splits)

text \<open>
  Claim C9: when no pending request between \<open>u1\<close> and \<open>u2\<close> is stored, then after
  \<^verbatim>\<open>createFriendRequest(u1, n1, u2, n2)\<close> the lookup with the arguments in the
  opposite order returns the record just created. The lookup does not depend on the
  order of its two arguments, and it returns the first record of the collection that
  is pending and joins the two users in either direction.
\<close>

theorem findExistingRequest_after_create:
  "(findExistingRequest u1 u2 st = None \<longrightarrow>
      findExistingRequest u2 u1 (snd (createFriendRequest u1 n1 u2 n2 idNow rnd now st)) =
        Some (fst (createFriendRequest u1 n1 u2 n2 idNow rnd now st))) \<and>
   findExistingRequest a b st = findExistingRequest b a st \<and>
   (findExistingRequest a b st = Some r \<longleftrightarrow>
      (\<exists>i < length (loadFriendRequests st).
          loadFriendRequests st ! i = r \<and>
          fr_status r = Pending \<and>
          ((fr_fromUserId r = a \<and> fr_toUserId r = b) \<or>
           (fr_fromUserId r = b \<and> fr_toUserId r = a)) \<and>
          (\<forall>j < i. \<not> (fr_status (loadFriendRequests st ! j) = Pending \<and>
             ((fr_fromUserId (loadFriendRequests st ! j) = a \<and>
               fr_toUserId (loadFriendRequests st ! j) = b) \<or>
              (fr_fromUserId (loadFriendRequests st ! j) = b \<and>
               fr_toUserId (loadFriendRequests st ! j) = a))))))"
proof (intro conjI impI)
  have sym: "\<And>x y. findExistingRequest x y st = findExistingRequest y x st"
    unfolding findExistingRequest_def by (rule arg_cong [where f = "\<lambda>P. find P _"]) auto
  show "findExistingRequest a b st = findExistingRequest b a st" by (rule sym)
  show "findExistingRequest a b st = Some r \<longleftrightarrow>
      (\<exists>i < length (loadFriendRequests st).
          loadFriendRequests st ! i = r \<and>
          fr_status r = Pending \<and>
          ((fr_fromUserId r = a \<and> fr_toUserId r = b) \<or>
           (fr_fromUserId r = b \<and> fr_toUserId r = a)) \<and>
          (\<forall>j < i. \<not> (fr_status (loadFriendRequests st ! j) = Pending \<and>
             ((fr_fromUserId (loadFriendRequests st ! j) = a \<and>
               fr_toUserId (loadFriendRequests st ! j) = b) \<or>
              (fr_fromUserId (loadFriendRequests st ! j) = b \<and>
               fr_toUserId (loadFriendRequests st ! j) = a)))))"
    unfolding findExistingRequest_def find_Some_iff by blast
  assume none: "findExistingRequest u1 u2 st = None"
  then have "findExistingRequest u2 u1 st = None" using sym by simp
  then show "findExistingRequest u2 u1 (snd (createFriendRequest u1 n1 u2 n2 idNow rnd now st)) =
        Some (fst (createFriendRequest u1 n1 u2 n2 idNow rnd now st))"
    by (simp add: findExistingRequest_def createFriendRequest_def Let_def
          loadFriendRequests_saveFriendRequests find_append_None)
qed

theorem findExistingRequest_after_create_witness:
  "findExistingRequest ''u1'' ''u2'' (Some [request0]) = None \<and>
   findExistingRequest ''u2'' ''u1''
     (snd (createFriendRequest ''u1'' ''Alice'' ''u2'' ''Bob'' 7 ''r'' 8 (Some [request0]))) =
     Some \<lparr> fr_id = ''freq_7_r'', fr_fromUserId = ''u1'', fr_fromUserName = ''Alice'',
            fr_toUserId = ''u2'', fr_toUserName = ''Bob'', fr_status = Pending,
            fr_createdAt = 8 \<rparr>"
proof -
  have none: "findExistingRequest ''u1'' ''u2'' (Some [request0]) = None"
    by (simp add: findExistingRequest_def loadFriendRequests_def request0_def)
  have sh: "show_int 7 = ''7''"
    by (simp add: show_int_def show_nat.simps)
  have made: "fst (createFriendRequest ''u1'' ''Alice'' ''u2'' ''Bob'' 7 ''r'' 8 (Some [request0])) =
     \<lparr> fr_id = ''freq_7_r'', fr_fromUserId = ''u1'', fr_fromUserName = ''Alice'',
       fr_toUserId = ''u2'', fr_toUserName = ''Bob'', fr_status = Pending, fr_createdAt = 8 \<rparr>"
    by (simp add: createFriendRequest_def generateFriendRequestId_def Let_def sh)
  from none made
    findExistingRequest_after_create [where ?u1.0 = "''u1''" and ?u2.0 = "''u2''"
      and st = "Some [request0]" and ?n1.0 = "''Alice''" and ?n2.0 = "''Bob''"
      and idNow = 7 and rnd = "''r''" and now = 8]
  show ?thesis by simp
qed

end
